theory Spec2Isabelle
  imports Main "HOL-Library.Word"
begin

unbundle bit_operations_syntax

section \<open>The embedding of \<open>src/mega/crypto.py\<close>\<close>

subsection \<open>Values, exceptions and the libraries outside the repository\<close>

text \<open>
  A byte is an \<open>8 word\<close>, and an element of an a32 array ("list of 32-bit integers" in
  the docstrings) a \<open>32 word\<close>, so \<open>struct.pack\<close> of a word always succeeds. A Python
  \<open>str\<close> that is Latin-1 encoded by \<open>makebyte\<close> is a \<open>string\<close>: an Isabelle \<open>char\<close>
  is one of the 256 Latin-1 code points.
\<close>

type_synonym byte = "8 word"
type_synonym word32 = "32 word"

text \<open>
  A raised exception is a value \<open>Inl e\<close> of the result. \<open>JSONDecodeError\<close> is kept apart
  from \<open>ValueError\<close> because the source names both in its \<open>except\<close> clause;
  \<open>OtherError\<close> stands for any exception class a library may raise that is neither.
\<close>

datatype error =
    ValueError string
  | JSONDecodeError string
  | Exception string
  | ZeroDivisionError
  | IndexError
  | OtherError string

text \<open>
  The module calls into PyCryptodome (\<open>AES.new(key, AES.MODE_CBC, iv)\<close> followed by
  \<open>.encrypt(data)\<close> or \<open>.decrypt(data)\<close>), \<open>json\<close> and \<open>base64\<close>. Their code is not
  part of the repository, so they are parameters of the model, collected in one record:
  \<open>AES_CBC_encrypt L key iv data\<close> is the result of the AES call sequence, which may
  raise; \<open>'j\<close> is the type of the values \<open>json\<close> handles. Nothing is assumed about them.
\<close>

record 'j pylib =
  AES_CBC_encrypt :: "byte list \<Rightarrow> byte list \<Rightarrow> byte list \<Rightarrow> error + byte list"
  AES_CBC_decrypt :: "byte list \<Rightarrow> byte list \<Rightarrow> byte list \<Rightarrow> error + byte list"
  json_dumps :: "'j \<Rightarrow> error + string"
  json_loads :: "string \<Rightarrow> error + 'j"
  b64encode :: "byte list \<Rightarrow> byte list"

subsection \<open>\<open>makebyte\<close>, \<open>makestring\<close>, \<open>a32_to_str\<close>, \<open>str_to_a32\<close>\<close>

text \<open>The Python 3 branch: Latin-1 encoding and decoding.\<close>

definition makebyte :: "string \<Rightarrow> byte list" where
  "makebyte x = map (\<lambda>c. of_nat (of_char c)) x"

definition makestring :: "byte list \<Rightarrow> string" where
  "makestring x = map (\<lambda>b. char_of (unat b)) x"

text \<open>\<open>struct.pack('>I', w)\<close>: the four bytes of a word, most significant first.\<close>

definition pack_be32 :: "word32 \<Rightarrow> byte list" where
  "pack_be32 w = [ucast (drop_bit 24 w), ucast (drop_bit 16 w), ucast (drop_bit 8 w), ucast w]"

definition a32_to_str :: "word32 list \<Rightarrow> byte list" where
  "a32_to_str a = concat (map pack_be32 a)"

text \<open>
  \<open>struct.unpack('>%dI' % (len(b) // 4), b)\<close> on a buffer whose length is a multiple
  of 4, which \<open>str_to_a32\<close> establishes by padding with zero bytes first. The
  \<open>isinstance(b, str)\<close> branch of \<open>str_to_a32\<close> is taken at the call site: the one
  caller that passes a \<open>str\<close>, \<open>stringhash\<close>, applies \<open>makebyte\<close> first.
\<close>

fun unpack_be32 :: "byte list \<Rightarrow> word32 list" where
  "unpack_be32 (b0 # b1 # b2 # b3 # bs) =
     (push_bit 24 (ucast b0) OR push_bit 16 (ucast b1) OR push_bit 8 (ucast b2) OR ucast b3)
       # unpack_be32 bs"
| "unpack_be32 bs = []"

definition str_to_a32 :: "byte list \<Rightarrow> word32 list" where
  "str_to_a32 b =
     unpack_be32 (if length b mod 4 \<noteq> 0 then b @ replicate (4 - length b mod 4) 0 else b)"

subsection \<open>AES in CBC mode with the zero IV\<close>

definition aes_cbc_encrypt :: "'j pylib \<Rightarrow> byte list \<Rightarrow> byte list \<Rightarrow> error + byte list" where
  "aes_cbc_encrypt L data key =
     (if length key \<noteq> 32 then Inl (ValueError ''Key must be 32 bytes long'')
      else AES_CBC_encrypt L key (makebyte (replicate 16 (CHR 0x00))) data)"

definition aes_cbc_decrypt :: "'j pylib \<Rightarrow> byte list \<Rightarrow> byte list \<Rightarrow> error + byte list" where
  "aes_cbc_decrypt L data key =
     (if length key \<noteq> 32 then Inl (ValueError ''Key must be 32 bytes long'')
      else AES_CBC_decrypt L key (makebyte (replicate 16 (CHR 0x00))) data)"

definition aes_cbc_encrypt_a32 :: "'j pylib \<Rightarrow> word32 list \<Rightarrow> word32 list \<Rightarrow> error + word32 list" where
  "aes_cbc_encrypt_a32 L data key =
     (if length key \<noteq> 4 then Inl (ValueError ''Key must be 4 integers long'')
      else case aes_cbc_encrypt L (a32_to_str data) (a32_to_str key) of
             Inl e \<Rightarrow> Inl e
           | Inr c \<Rightarrow> Inr (str_to_a32 c))"

definition aes_cbc_decrypt_a32 :: "'j pylib \<Rightarrow> word32 list \<Rightarrow> word32 list \<Rightarrow> error + word32 list" where
  "aes_cbc_decrypt_a32 L data key =
     (if length key \<noteq> 4 then Inl (ValueError ''Key must be 4 integers long'')
      else case aes_cbc_decrypt L (a32_to_str data) (a32_to_str key) of
             Inl e \<Rightarrow> Inl e
           | Inr c \<Rightarrow> Inr (str_to_a32 c))"

subsection \<open>\<open>base64_url_encode\<close> and \<open>a32_to_base64\<close>\<close>

text \<open>\<open>data.replace(search, replace)\<close> for a one-character \<open>search\<close>.\<close>

definition str_replace :: "char \<Rightarrow> string \<Rightarrow> string \<Rightarrow> string" where
  "str_replace search rep s = concat (map (\<lambda>c. if c = search then rep else [c]) s)"

definition base64_url_encode :: "'j pylib \<Rightarrow> byte list \<Rightarrow> string" where
  "base64_url_encode L data =
     str_replace (CHR ''='') []
       (str_replace (CHR ''/'') ''_''
         (str_replace (CHR ''+'') ''-'' (makestring (b64encode L data))))"

definition a32_to_base64 :: "'j pylib \<Rightarrow> word32 list \<Rightarrow> string" where
  "a32_to_base64 L a = base64_url_encode L (a32_to_str a)"

subsection \<open>\<open>stringhash\<close>\<close>

text \<open>
  The first loop, \<open>h32[i % 4] ^= s32[i]\<close> for \<open>i\<close> in \<open>range(len(s32))\<close>; then
  \<open>stringhash_rounds L r\<close> is what is left of the loop over \<open>range(0x4000)\<close> when \<open>r\<close>
  rounds remain. Indexing the result at 0 and 2 raises \<open>IndexError\<close> on a shorter tuple.
\<close>

definition stringhash_fold :: "word32 list \<Rightarrow> word32 list" where
  "stringhash_fold s32 =
     fold (\<lambda>i h32. h32[i mod 4 := (h32 ! (i mod 4)) XOR (s32 ! i)]) [0..<length s32] [0, 0, 0, 0]"

fun stringhash_rounds :: "'j pylib \<Rightarrow> nat \<Rightarrow> word32 list \<Rightarrow> word32 list \<Rightarrow> error + word32 list" where
  "stringhash_rounds L 0 h32 aeskey = Inr h32"
| "stringhash_rounds L (Suc r) h32 aeskey =
     (case aes_cbc_encrypt_a32 L h32 aeskey of
        Inl e \<Rightarrow> Inl e
      | Inr h \<Rightarrow> stringhash_rounds L r h aeskey)"

definition stringhash :: "'j pylib \<Rightarrow> string \<Rightarrow> word32 list \<Rightarrow> error + string" where
  "stringhash L str aeskey =
     (if length aeskey \<noteq> 4 then Inl (ValueError ''AES key must be 4 integers long'')
      else case stringhash_rounds L 0x4000 (stringhash_fold (str_to_a32 (makebyte str))) aeskey of
             Inl e \<Rightarrow> Inl e
           | Inr h32 \<Rightarrow>
               if length h32 \<le> 2 then Inl IndexError
               else Inr (a32_to_base64 L [h32 ! 0, h32 ! 2]))"

subsection \<open>\<open>prepare_key\<close>\<close>

text \<open>
  \<open>range_step4 n\<close> is \<open>range(0, n, 4)\<close>. \<open>prepare_key_block arr j\<close> is the list \<open>key\<close>
  after the loop over \<open>i\<close> in \<open>range(4)\<close>; \<open>prepare_key_inner\<close> is the loop over \<open>j\<close>
  and \<open>prepare_key_rounds L arr r\<close> what is left of the loop over \<open>range(0x10000)\<close>
  when \<open>r\<close> rounds remain.
\<close>

definition range_step4 :: "nat \<Rightarrow> nat list" where
  "range_step4 n = map (\<lambda>k. 4 * k) [0..<(n + 3) div 4]"

definition prepare_key_block :: "word32 list \<Rightarrow> nat \<Rightarrow> word32 list" where
  "prepare_key_block arr j =
     fold (\<lambda>i key. if i + j < length arr then key[i := arr ! (i + j)] else key)
       [0..<4] [0, 0, 0, 0]"

fun prepare_key_inner :: "'j pylib \<Rightarrow> word32 list \<Rightarrow> nat list \<Rightarrow> word32 list \<Rightarrow> error + word32 list" where
  "prepare_key_inner L arr [] pkey = Inr pkey"
| "prepare_key_inner L arr (j # js) pkey =
     (case aes_cbc_encrypt_a32 L pkey (prepare_key_block arr j) of
        Inl e \<Rightarrow> Inl e
      | Inr p \<Rightarrow> prepare_key_inner L arr js p)"

fun prepare_key_rounds :: "'j pylib \<Rightarrow> word32 list \<Rightarrow> nat \<Rightarrow> word32 list \<Rightarrow> error + word32 list" where
  "prepare_key_rounds L arr 0 pkey = Inr pkey"
| "prepare_key_rounds L arr (Suc r) pkey =
     (case prepare_key_inner L arr (range_step4 (length arr)) pkey of
        Inl e \<Rightarrow> Inl e
      | Inr p \<Rightarrow> prepare_key_rounds L arr r p)"

definition prepare_key :: "'j pylib \<Rightarrow> word32 list \<Rightarrow> error + word32 list" where
  "prepare_key L arr =
     (let pkey = [0x93C467E3, 0x7DB0C7A4, 0xD1BE3F81, 0x0152CB56] in
      if length arr mod 4 \<noteq> 0 then Inl (ValueError ''Input array length must be multiple of 4'')
      else prepare_key_rounds L arr 0x10000 pkey)"

subsection \<open>\<open>encrypt_key\<close> and \<open>decrypt_key\<close>\<close>

text \<open>
  \<open>sum(generator, ())\<close>: the accumulator starts empty; for each \<open>i\<close> of
  \<open>range(0, len(a), 4)\<close> in turn the slice \<open>a[i:i + 4]\<close> is encrypted and the result
  appended. The first exception ends the call.
\<close>

fun encrypt_key_sum :: "'j pylib \<Rightarrow> word32 list \<Rightarrow> word32 list \<Rightarrow> nat list \<Rightarrow> word32 list \<Rightarrow> error + word32 list" where
  "encrypt_key_sum L a key [] acc = Inr acc"
| "encrypt_key_sum L a key (i # is) acc =
     (case aes_cbc_encrypt_a32 L (take 4 (drop i a)) key of
        Inl e \<Rightarrow> Inl e
      | Inr c \<Rightarrow> encrypt_key_sum L a key is (acc @ c))"

definition encrypt_key :: "'j pylib \<Rightarrow> word32 list \<Rightarrow> word32 list \<Rightarrow> error + word32 list" where
  "encrypt_key L a key =
     (if length key \<noteq> 4 then Inl (ValueError ''Key must be 4 integers long'')
      else encrypt_key_sum L a key (range_step4 (length a)) [])"

fun decrypt_key_sum :: "'j pylib \<Rightarrow> word32 list \<Rightarrow> word32 list \<Rightarrow> nat list \<Rightarrow> word32 list \<Rightarrow> error + word32 list" where
  "decrypt_key_sum L a key [] acc = Inr acc"
| "decrypt_key_sum L a key (i # is) acc =
     (case aes_cbc_decrypt_a32 L (take 4 (drop i a)) key of
        Inl e \<Rightarrow> Inl e
      | Inr c \<Rightarrow> decrypt_key_sum L a key is (acc @ c))"

definition decrypt_key :: "'j pylib \<Rightarrow> word32 list \<Rightarrow> word32 list \<Rightarrow> error + word32 list" where
  "decrypt_key L a key =
     (if length key \<noteq> 4 then Inl (ValueError ''Key must be 4 integers long'')
      else decrypt_key_sum L a key (range_step4 (length a)) [])"

subsection \<open>\<open>encrypt_attr\<close> and \<open>decrypt_attr\<close>\<close>

definition encrypt_attr :: "'j pylib \<Rightarrow> 'j \<Rightarrow> word32 list \<Rightarrow> error + byte list" where
  "encrypt_attr L attr key =
     (if length key \<noteq> 4 then Inl (ValueError ''Key must be 4 integers long'')
      else case json_dumps L attr of
             Inl e \<Rightarrow> Inl e
           | Inr js \<Rightarrow>
               (let attr_str = makebyte (''MEGA'' @ js);
                    padding = replicate (16 - length attr_str mod 16) 0
                in aes_cbc_encrypt L (attr_str @ padding) (a32_to_str key)))"

text \<open>
  \<open>rstrip_nul\<close> strips the trailing NUL characters, as \<open>rstrip\<close> is called to do. \<open>decrypt_attr_try\<close> is the body of the \<open>try\<close>
  block (the literal compared with is \<open>MEGA{\<close> followed by a double quote, character
  0x22); \<open>caught\<close> is the \<open>except (ValueError, json.JSONDecodeError)\<close> clause.
\<close>

definition rstrip_nul :: "string \<Rightarrow> string" where
  "rstrip_nul s = rev (dropWhile (\<lambda>c. c = CHR 0x00) (rev s))"

definition decrypt_attr_try :: "'j pylib \<Rightarrow> byte list \<Rightarrow> word32 list \<Rightarrow> error + 'j option" where
  "decrypt_attr_try L attr key =
     (case aes_cbc_decrypt L attr (a32_to_str key) of
        Inl e \<Rightarrow> Inl e
      | Inr decrypted \<Rightarrow>
          (let decrypted_str = rstrip_nul (makestring decrypted) in
           if take 6 decrypted_str = ''MEGA{'' @ [CHR 0x22]
           then (case json_loads L (drop 4 decrypted_str) of
                   Inl e \<Rightarrow> Inl e
                 | Inr v \<Rightarrow> Inr (Some v))
           else Inr None))"

fun caught :: "error \<Rightarrow> bool" where
  "caught (ValueError msg) = True"
| "caught (JSONDecodeError msg) = True"
| "caught e = False"

definition decrypt_attr :: "'j pylib \<Rightarrow> byte list \<Rightarrow> word32 list \<Rightarrow> error + 'j option" where
  "decrypt_attr L attr key =
     (if length key \<noteq> 4 then Inl (ValueError ''Key must be 4 integers long'')
      else case decrypt_attr_try L attr key of
             Inl e \<Rightarrow> if caught e then Inr None else Inl e
           | Inr r \<Rightarrow> Inr r)"

subsection \<open>\<open>mpi_to_int\<close>\<close>

text \<open>
  \<open>binascii.hexlify\<close> writes two lower-case hexadecimal digits per byte. \<open>int(x, 16)\<close>
  is modelled on the literals \<open>hexlify\<close> can produce, runs of hexadecimal digits: it
  raises \<open>ValueError\<close> on the empty literal and on any other character (Python also
  reads a sign, a \<open>0x\<close> prefix, underscores and blanks, which \<open>hexlify\<close> never writes).
\<close>

definition hexdigits :: string where
  "hexdigits = ''0123456789abcdef''"

fun hexlify :: "byte list \<Rightarrow> string" where
  "hexlify [] = []"
| "hexlify (b # bs) =
     hexdigits ! (unat b div 16) # hexdigits ! (unat b mod 16) # hexlify bs"

definition hex_digit_value :: "char \<Rightarrow> int option" where
  "hex_digit_value c =
     (let n = (of_char c :: nat) in
      if 48 \<le> n \<and> n \<le> 57 then Some (int n - 48)
      else if 97 \<le> n \<and> n \<le> 102 then Some (int n - 87)
      else if 65 \<le> n \<and> n \<le> 70 then Some (int n - 55)
      else None)"

fun int_base16_digits :: "int \<Rightarrow> string \<Rightarrow> error + int" where
  "int_base16_digits acc [] = Inr acc"
| "int_base16_digits acc (c # cs) =
     (case hex_digit_value c of
        None \<Rightarrow> Inl (ValueError ''invalid literal for int() with base 16'')
      | Some d \<Rightarrow> int_base16_digits (16 * acc + d) cs)"

definition int_base16 :: "string \<Rightarrow> error + int" where
  "int_base16 s =
     (if s = [] then Inl (ValueError ''invalid literal for int() with base 16'')
      else int_base16_digits 0 s)"

definition mpi_to_int :: "byte list \<Rightarrow> error + int" where
  "mpi_to_int s = int_base16 (hexlify (drop 2 s))"

subsection \<open>\<open>extended_gcd\<close> and \<open>modular_inverse\<close>\<close>

text \<open>
  Python's \<open>%\<close> and \<open>//\<close> on integers are \<open>mod\<close> and \<open>div\<close> on \<open>int\<close>: both round
  towards minus infinity. The recursion ends because \<open>\<bar>b mod a\<bar> < \<bar>a\<bar>\<close>; the
  interpreter's recursion limit is not part of the model. \<open>x % m\<close> raises
  \<open>ZeroDivisionError\<close> when \<open>m\<close> is 0.
\<close>

function extended_gcd :: "int \<Rightarrow> int \<Rightarrow> int \<times> int \<times> int" where
  "extended_gcd a b =
     (if a = 0 then (b, 0, 1)
      else (case extended_gcd (b mod a) a of (g, y, x) \<Rightarrow> (g, x - (b div a) * y, y)))"
  by pat_completeness auto
termination
  by (relation "measure (\<lambda>(a, b). nat \<bar>a\<bar>)") (auto simp: abs_mod_less)

declare extended_gcd.simps [simp del]

definition modular_inverse :: "int \<Rightarrow> int \<Rightarrow> error + int" where
  "modular_inverse a m =
     (case extended_gcd a m of (g, x, y) \<Rightarrow>
        if g \<noteq> 1 then Inl (Exception ''modular inverse does not exist'')
        else if m = 0 then Inl ZeroDivisionError
        else Inr (x mod m))"

subsection \<open>\<open>get_chunks\<close>\<close>

text \<open>
  The generator \<open>get_chunks(size)\<close>, with the pairs it yields collected in a list.
  \<open>p\<close> and \<open>s\<close> are the loop variables; Python integers are unbounded, so they are
  \<open>int\<close>. The loop ends for all integers: \<open>s\<close> grows until it is positive, then
  \<open>p\<close> grows towards \<open>sz\<close>.
\<close>

function get_chunks_loop :: "int \<Rightarrow> int \<Rightarrow> int \<Rightarrow> (int \<times> int) list" where
  "get_chunks_loop sz p s =
     (if p + s < sz
      then (p, s) # get_chunks_loop sz (p + s) (if s < 0x100000 then s + 0x20000 else s)
      else [(p, sz - p)])"
  by pat_completeness auto
termination
  by (relation "measures [\<lambda>(sz, p, s). nat (0x100000 - s), \<lambda>(sz, p, s). nat (sz - p)]") auto

declare get_chunks_loop.simps [simp del]

definition get_chunks :: "int \<Rightarrow> (int \<times> int) list" where
  "get_chunks sz = get_chunks_loop sz 0 0x20000"

section \<open>Notions the properties are stated with\<close>

text \<open>
  \<open>covers a cs b\<close>: the pairs \<open>cs\<close>, read as (offset, length), tile the interval from
  \<open>a\<close> to \<open>b\<close> in order: each starts where the one before ends, none has a negative
  length, the first starts at \<open>a\<close> and the last ends at \<open>b\<close>.
\<close>

fun covers :: "int \<Rightarrow> (int \<times> int) list \<Rightarrow> int \<Rightarrow> bool" where
  "covers a [] b = (a = b)"
| "covers a ((p, l) # cs) b = (p = a \<and> 0 \<le> l \<and> covers (a + l) cs b)"

text \<open>The big-endian unsigned integer a byte sequence denotes.\<close>

definition be_uint :: "byte list \<Rightarrow> int" where
  "be_uint bs = foldl (\<lambda>acc b. 256 * acc + uint b) 0 bs"

section \<open>Properties of the word-array cipher operations\<close>

lemma length_a32_to_str: "length (a32_to_str a) = 4 * length a"
  by (induction a) (simp_all add: a32_to_str_def pack_be32_def)

text \<open>
  A key of 4 words packs to 16 bytes, and \<open>aes_cbc_encrypt\<close> and \<open>aes_cbc_decrypt\<close>
  refuse every key that is not 32 bytes long. So the word-array operations, which
  demand exactly 4 words and pass the packed key on, raise on every input and never
  reach the cipher.
\<close>

lemma aes_cbc_encrypt_a32_raises:
  "aes_cbc_encrypt_a32 L data key =
     Inl (ValueError (if length key \<noteq> 4 then ''Key must be 4 integers long''
                      else ''Key must be 32 bytes long''))"
  by (simp add: aes_cbc_encrypt_a32_def aes_cbc_encrypt_def length_a32_to_str)

lemma aes_cbc_decrypt_a32_raises:
  "aes_cbc_decrypt_a32 L data key =
     Inl (ValueError (if length key \<noteq> 4 then ''Key must be 4 integers long''
                      else ''Key must be 32 bytes long''))"
  by (simp add: aes_cbc_decrypt_a32_def aes_cbc_decrypt_def length_a32_to_str)

lemma range_step4_Nil: "range_step4 n = [] \<longleftrightarrow> n = 0"
  by (auto simp: range_step4_def)

subsection \<open>\<open>prepare_key\<close>\<close>

lemma length_prepare_key_block: "length (prepare_key_block arr j) = 4"
proof -
  have "length (fold (\<lambda>i key. if i + j < length arr then key[i := arr ! (i + j)] else key) is k)
          = length k" for "is" and k :: "word32 list"
    by (induction "is" arbitrary: k) simp_all
  then show ?thesis by (simp add: prepare_key_block_def)
qed

lemma prepare_key_inner_raises:
  "js \<noteq> [] \<Longrightarrow>
   prepare_key_inner L arr js pkey = Inl (ValueError ''Key must be 32 bytes long'')"
  by (cases js) (simp_all add: aes_cbc_encrypt_a32_raises length_prepare_key_block)

lemma prepare_key_rounds_raises:
  "0 < r \<Longrightarrow> arr \<noteq> [] \<Longrightarrow>
   prepare_key_rounds L arr r pkey = Inl (ValueError ''Key must be 32 bytes long'')"
  by (cases r) (simp_all add: prepare_key_inner_raises range_step4_Nil)

lemma prepare_key_rounds_Nil: "prepare_key_rounds L [] r pkey = Inr pkey"
  by (induction r) (simp_all add: range_step4_def)

text \<open>What \<open>prepare_key\<close> does on every input.\<close>

lemma prepare_key_behaviour:
  "prepare_key L arr =
     (if length arr mod 4 \<noteq> 0
      then Inl (ValueError ''Input array length must be multiple of 4'')
      else if arr = [] then Inr [0x93C467E3, 0x7DB0C7A4, 0xD1BE3F81, 0x0152CB56]
      else Inl (ValueError ''Key must be 32 bytes long''))"
  by (simp add: prepare_key_def prepare_key_rounds_Nil prepare_key_rounds_raises)

text \<open>
  C1 (the code departs from the claim). On the one-block input \<open>[0, 0, 0, 0]\<close>, whose
  length is a multiple of 4, \<open>prepare_key\<close> returns no accumulator: the first
  word-CBC encryption of the first round raises \<open>ValueError\<close>, "Key must be 32 bytes
  long", whatever the AES library does.
\<close>

theorem prepare_key_one_block_raises:
  "prepare_key L [0, 0, 0, 0] = Inl (ValueError ''Key must be 32 bytes long'')"
  by (simp add: prepare_key_behaviour)

subsection \<open>\<open>stringhash\<close>\<close>

lemma stringhash_rounds_raises:
  "0 < r \<Longrightarrow> length aeskey = 4 \<Longrightarrow>
   stringhash_rounds L r h32 aeskey = Inl (ValueError ''Key must be 32 bytes long'')"
  by (cases r) (simp_all add: aes_cbc_encrypt_a32_raises)

text \<open>What \<open>stringhash\<close> does on every input.\<close>

lemma stringhash_behaviour:
  "stringhash L str aeskey =
     Inl (ValueError (if length aeskey \<noteq> 4 then ''AES key must be 4 integers long''
                      else ''Key must be 32 bytes long''))"
  by (simp add: stringhash_def stringhash_rounds_raises)

text \<open>
  C2 (the code departs from the claim). With the 4-word key \<open>[0, 0, 0, 0]\<close>
  \<open>stringhash\<close> returns no hash for the text \<open>user@example.com\<close>: the first of the
  16384 rounds raises \<open>ValueError\<close>, "Key must be 32 bytes long".
\<close>

theorem stringhash_four_word_key_raises:
  "stringhash L ''user@example.com'' [0, 0, 0, 0] =
     Inl (ValueError ''Key must be 32 bytes long'')"
  by (simp add: stringhash_behaviour)

subsection \<open>\<open>encrypt_key\<close> and \<open>decrypt_key\<close>\<close>

text \<open>What \<open>encrypt_key\<close> and \<open>decrypt_key\<close> do on every input.\<close>

lemma encrypt_key_behaviour:
  "encrypt_key L a key =
     (if length key \<noteq> 4 then Inl (ValueError ''Key must be 4 integers long'')
      else if a = [] then Inr []
      else Inl (ValueError ''Key must be 32 bytes long''))"
proof (cases "a = []")
  case True
  then show ?thesis by (simp add: encrypt_key_def range_step4_def)
next
  case False
  then obtain i "is" where "range_step4 (length a) = i # is"
    using range_step4_Nil[of "length a"] by (cases "range_step4 (length a)") auto
  with False show ?thesis
    by (simp add: encrypt_key_def aes_cbc_encrypt_a32_raises)
qed

lemma decrypt_key_behaviour:
  "decrypt_key L a key =
     (if length key \<noteq> 4 then Inl (ValueError ''Key must be 4 integers long'')
      else if a = [] then Inr []
      else Inl (ValueError ''Key must be 32 bytes long''))"
proof (cases "a = []")
  case True
  then show ?thesis by (simp add: decrypt_key_def range_step4_def)
next
  case False
  then obtain i "is" where "range_step4 (length a) = i # is"
    using range_step4_Nil[of "length a"] by (cases "range_step4 (length a)") auto
  with False show ?thesis
    by (simp add: decrypt_key_def aes_cbc_decrypt_a32_raises)
qed

text \<open>
  C3 (the code departs from the claim). For the 4-word array \<open>[1, 2, 3, 4]\<close> and the
  4-word key \<open>[0, 0, 0, 0]\<close> neither \<open>encrypt_key\<close> nor \<open>decrypt_key\<close> returns a word
  array, so neither composition of the two returns the input: both raise \<open>ValueError\<close>,
  "Key must be 32 bytes long".
\<close>

theorem encrypt_key_one_block_raises:
  "encrypt_key L [1, 2, 3, 4] [0, 0, 0, 0] = Inl (ValueError ''Key must be 32 bytes long'') \<and>
   decrypt_key L [1, 2, 3, 4] [0, 0, 0, 0] = Inl (ValueError ''Key must be 32 bytes long'')"
  by (simp add: encrypt_key_behaviour decrypt_key_behaviour)

text \<open>
  C4 (the code departs from the claim). Key material of arbitrary word length is not
  accepted: for the five-word array \<open>[1, 2, 3, 4, 5]\<close>, whose length is not a multiple
  of 4, and the 4-word key \<open>[0, 0, 0, 0]\<close>, neither \<open>encrypt_key\<close> nor \<open>decrypt_key\<close>
  returns the concatenated block results; both raise \<open>ValueError\<close>, "Key must be 32
  bytes long", on the first slice, and the same holds for the one-word array \<open>[1]\<close>.
\<close>

theorem key_wrap_short_block_raises:
  "encrypt_key L [1, 2, 3, 4, 5] [0, 0, 0, 0] = Inl (ValueError ''Key must be 32 bytes long'') \<and>
   decrypt_key L [1, 2, 3, 4, 5] [0, 0, 0, 0] = Inl (ValueError ''Key must be 32 bytes long'') \<and>
   encrypt_key L [1] [0, 0, 0, 0] = Inl (ValueError ''Key must be 32 bytes long'') \<and>
   decrypt_key L [1] [0, 0, 0, 0] = Inl (ValueError ''Key must be 32 bytes long'')"
  by (simp add: encrypt_key_behaviour decrypt_key_behaviour)

subsection \<open>\<open>encrypt_attr\<close> and \<open>decrypt_attr\<close>\<close>

text \<open>What \<open>encrypt_attr\<close> does on every input: it never returns a ciphertext.\<close>

lemma encrypt_attr_behaviour:
  "encrypt_attr L attr key =
     (if length key \<noteq> 4 then Inl (ValueError ''Key must be 4 integers long'')
      else case json_dumps L attr of
             Inl e \<Rightarrow> Inl e
           | Inr js \<Rightarrow> Inl (ValueError ''Key must be 32 bytes long''))"
  by (simp add: encrypt_attr_def aes_cbc_encrypt_def length_a32_to_str Let_def split: sum.splits)

lemma decrypt_attr_try_raises:
  "length key = 4 \<Longrightarrow>
   decrypt_attr_try L attr key = Inl (ValueError ''Key must be 32 bytes long'')"
  by (simp add: decrypt_attr_try_def aes_cbc_decrypt_def length_a32_to_str)

lemma decrypt_attr_behaviour:
  "decrypt_attr L attr key =
     (if length key = 4 then Inr None
      else Inl (ValueError ''Key must be 4 integers long''))"
  by (simp add: decrypt_attr_def decrypt_attr_try_raises)

text \<open>
  C5 (the code departs from the claim). There is no round trip: for every attribute
  value, every key and every behaviour of the libraries \<open>encrypt_attr\<close> returns no
  ciphertext \<open>c\<close> (with a 4-word key it raises \<open>ValueError\<close>, "Key must be 32 bytes
  long", once the attributes are serialised), and \<open>decrypt_attr\<close> returns no mapping
  for any buffer.
\<close>

theorem encrypt_attr_never_returns:
  "encrypt_attr L attr key \<noteq> Inr c \<and>
   decrypt_attr L c key \<noteq> Inr (Some attr) \<and>
   encrypt_attr (L\<lparr>json_dumps := \<lambda>j. Inr js\<rparr>) attr [0, 0, 0, 0] =
     Inl (ValueError ''Key must be 32 bytes long'')"
  by (simp add: encrypt_attr_behaviour decrypt_attr_behaviour split: sum.splits)

text \<open>
  C6. \<open>decrypt_attr\<close> never propagates a failure of decoding: for every buffer and
  every key of 4 words it returns the absence value \<open>None\<close> (the body of its \<open>try\<close>
  raises a \<open>ValueError\<close>, which the \<open>except\<close> clause turns into \<open>None\<close>); only a key
  that is not 4 words long makes it raise, the \<open>ValueError\<close> "Key must be 4 integers
  long" of the check before the \<open>try\<close>.
\<close>

theorem decrypt_attr_never_propagates:
  "decrypt_attr L attr key =
     (if length key = 4 then Inr None
      else Inl (ValueError ''Key must be 4 integers long''))"
  by (simp add: decrypt_attr_def decrypt_attr_try_raises)

theorem decrypt_attr_never_propagates_witness:
  "\<forall>L :: unit pylib.
     decrypt_attr L [77, 69, 71, 65] [0, 0, 0, 0] = Inr None \<and>
     decrypt_attr L [77, 69, 71, 65] [0, 0, 0] = Inl (ValueError ''Key must be 4 integers long'')"
proof
  fix L :: "unit pylib"
  from decrypt_attr_never_propagates[of L "[77, 69, 71, 65]" "[0, 0, 0, 0]"]
    decrypt_attr_never_propagates[of L "[77, 69, 71, 65]" "[0, 0, 0]"]
  show "decrypt_attr L [77, 69, 71, 65] [0, 0, 0, 0] = Inr None \<and>
     decrypt_attr L [77, 69, 71, 65] [0, 0, 0] = Inl (ValueError ''Key must be 4 integers long'')"
    by simp
qed

section \<open>Properties of \<open>extended_gcd\<close> and \<open>modular_inverse\<close>\<close>

lemma extended_gcd_zero: "extended_gcd 0 b = (b, 0, 1)"
  by (subst extended_gcd.simps) simp

lemma extended_gcd_rec:
  "a \<noteq> 0 \<Longrightarrow> extended_gcd a b =
     (case extended_gcd (b mod a) a of (g, y, x) \<Rightarrow> (g, x - (b div a) * y, y))"
  by (subst extended_gcd.simps) simp

lemma extended_gcd_bezout:
  "extended_gcd a b = (g, x, y) \<Longrightarrow> a * x + b * y = g"
proof (induction a b arbitrary: g x y rule: extended_gcd.induct)
  case (1 a b)
  show ?case
  proof (cases "a = 0")
    case True
    with "1.prems" show ?thesis by (simp add: extended_gcd_zero)
  next
    case False
    obtain g' y' x' where r: "extended_gcd (b mod a) a = (g', y', x')"
      by (cases "extended_gcd (b mod a) a") auto
    from "1.IH"[OF False r] have ih: "(b mod a) * y' + a * x' = g'" .
    from "1.prems" False r have e: "g = g'" "x = x' - (b div a) * y'" "y = y'"
      by (auto simp: extended_gcd_rec)
    from ih have "(b - a * (b div a)) * y' + a * x' = g'"
      by (simp add: minus_mult_div_eq_mod)
    then show ?thesis unfolding e by (simp add: algebra_simps)
  qed
qed

lemma extended_gcd_fst_rec:
  "a \<noteq> 0 \<Longrightarrow> fst (extended_gcd a b) = fst (extended_gcd (b mod a) a)"
  by (simp add: extended_gcd_rec split: prod.splits)

lemma extended_gcd_abs: "\<bar>fst (extended_gcd a b)\<bar> = gcd a b"
proof (induction a b rule: extended_gcd.induct)
  case (1 a b)
  show ?case
  proof (cases "a = 0")
    case True
    then show ?thesis by (simp add: extended_gcd_zero)
  next
    case False
    have "gcd a b = gcd (b mod a) a"
      by (metis gcd.commute gcd_red_int)
    with "1.IH"[OF False] extended_gcd_fst_rec[OF False, of b] show ?thesis
      by simp
  qed
qed

text \<open>The sign of the first component: it follows \<open>a\<close>, and \<open>b\<close> when \<open>a\<close> is 0.\<close>

lemma extended_gcd_sign:
  "0 \<le> fst (extended_gcd a b) \<longleftrightarrow> (0 < a \<or> (a = 0 \<and> 0 \<le> b))"
proof (induction a b rule: extended_gcd.induct)
  case (1 a b)
  show ?case
  proof (cases "a = 0")
    case True
    then show ?thesis by (simp add: extended_gcd_zero)
  next
    case False
    note ih = "1.IH"[OF False]
    note st = extended_gcd_fst_rec[OF False, of b]
    show ?thesis
    proof (cases "0 < a")
      case True
      have "0 \<le> b mod a" using True by simp
      then have "0 < b mod a \<or> (b mod a = 0 \<and> 0 \<le> a)" using True by linarith
      with ih have "0 \<le> fst (extended_gcd (b mod a) a)" by blast
      with st True show ?thesis by simp
    next
      case neg: False
      with False have "a < 0" by simp
      have "b mod a \<le> 0" using \<open>a < 0\<close> by simp
      then have "\<not> (0 < b mod a \<or> (b mod a = 0 \<and> 0 \<le> a))" using \<open>a < 0\<close> by linarith
      with ih have "\<not> 0 \<le> fst (extended_gcd (b mod a) a)" by blast
      with st \<open>a < 0\<close> show ?thesis by simp
    qed
  qed
qed

lemma extended_gcd_is_gcd:
  "0 < a \<or> (a = 0 \<and> 0 \<le> b) \<Longrightarrow> fst (extended_gcd a b) = gcd a b"
  using extended_gcd_abs[of a b] extended_gcd_sign[of a b] by simp

lemma modular_inverse_coprime:
  assumes "0 \<le> a" "0 < m" "gcd a m = 1"
  shows "\<exists>x. modular_inverse a m = Inr x \<and> 0 \<le> x \<and> x < m \<and> (a * x) mod m = 1 mod m"
proof -
  obtain g x y where r: "extended_gcd a m = (g, x, y)"
    by (cases "extended_gcd a m") auto
  have "0 < a \<or> (a = 0 \<and> 0 \<le> m)" using assms by linarith
  from extended_gcd_is_gcd[OF this] r have "g = gcd a m" by simp
  then have g: "g = 1" using assms by simp
  have bz: "a * x + m * y = 1" using extended_gcd_bezout[OF r] g by simp
  have res: "modular_inverse a m = Inr (x mod m)"
    using r g assms by (simp add: modular_inverse_def)
  have "(a * (x mod m)) mod m = (a * x) mod m"
    by (simp add: mod_mult_right_eq)
  also have "\<dots> = (a * x + m * y) mod m" by simp
  also have "\<dots> = 1 mod m" using bz by simp
  finally show ?thesis using res assms by simp
qed

lemma modular_inverse_not_coprime:
  assumes "0 \<le> a" "0 < m" "gcd a m \<noteq> 1"
  shows "modular_inverse a m = Inl (Exception ''modular inverse does not exist'')"
proof -
  obtain g x y where r: "extended_gcd a m = (g, x, y)"
    by (cases "extended_gcd a m") auto
  have "0 < a \<or> (a = 0 \<and> 0 \<le> m)" using assms by linarith
  from extended_gcd_is_gcd[OF this] r have "g = gcd a m" by simp
  then show ?thesis using r assms by (simp add: modular_inverse_def)
qed

lemma modular_inverse_3_11: "modular_inverse 3 11 = Inr 4"
  by (simp add: modular_inverse_def extended_gcd_rec extended_gcd_zero)

lemma modular_inverse_2_4:
  "modular_inverse 2 4 = Inl (Exception ''modular inverse does not exist'')"
  by (simp add: modular_inverse_def extended_gcd_rec extended_gcd_zero)

text \<open>
  C9 (as amended). For all integers \<open>0 \<le> a\<close> and \<open>0 < m\<close>: if \<open>gcd a m = 1\<close>,
  \<open>modular_inverse a m\<close> returns an \<open>x\<close> with \<open>0 \<le> x < m\<close> and \<open>a * x\<close> congruent to 1
  modulo \<open>m\<close>; otherwise it fails with "modular inverse does not exist". In particular
  \<open>modular_inverse 3 11\<close> is 4 and \<open>modular_inverse 2 4\<close> fails. For all integers \<open>a\<close>
  and \<open>b\<close>, \<open>extended_gcd a b\<close> returns \<open>(g, x, y)\<close> with \<open>a * x + b * y = g\<close> and
  \<open>\<bar>g\<bar> = gcd a b\<close>; \<open>g\<close> is \<open>gcd a b\<close> itself when \<open>0 < a\<close>, or \<open>a = 0\<close> and \<open>0 \<le> b\<close>.
\<close>

theorem modular_inverse_correct:
  "(0 \<le> a \<and> 0 < m \<and> gcd a m = 1 \<longrightarrow>
      (\<exists>x. modular_inverse a m = Inr x \<and> 0 \<le> x \<and> x < m \<and> (a * x) mod m = 1 mod m)) \<and>
   (0 \<le> a \<and> 0 < m \<and> gcd a m \<noteq> 1 \<longrightarrow>
      modular_inverse a m = Inl (Exception ''modular inverse does not exist'')) \<and>
   modular_inverse 3 11 = Inr 4 \<and>
   modular_inverse 2 4 = Inl (Exception ''modular inverse does not exist'') \<and>
   (case extended_gcd a b of (g, x, y) \<Rightarrow>
      a * x + b * y = g \<and> \<bar>g\<bar> = gcd a b \<and>
      (0 < a \<or> (a = 0 \<and> 0 \<le> b) \<longrightarrow> g = gcd a b))"
proof -
  obtain g x y where r: "extended_gcd a b = (g, x, y)"
    by (cases "extended_gcd a b") auto
  have bz: "a * x + b * y = g" using extended_gcd_bezout[OF r] .
  have ab: "\<bar>g\<bar> = gcd a b" using extended_gcd_abs[of a b] r by simp
  have sg: "0 < a \<or> (a = 0 \<and> 0 \<le> b) \<longrightarrow> g = gcd a b"
    using extended_gcd_is_gcd[of a b] r by simp
  from bz ab sg r modular_inverse_coprime[of a m] modular_inverse_not_coprime[of a m]
    modular_inverse_3_11 modular_inverse_2_4
  show ?thesis by simp
qed

theorem modular_inverse_correct_witness:
  "(0::int) \<le> 7 \<and> (0::int) < 40 \<and> gcd (7::int) 40 = 1 \<and>
   (\<exists>x. modular_inverse 7 40 = Inr x \<and> 0 \<le> x \<and> x < 40 \<and> (7 * x) mod 40 = 1 mod 40) \<and>
   modular_inverse 7 40 = Inr 23 \<and>
   (0::int) \<le> 6 \<and> (0::int) < 9 \<and> gcd (6::int) 9 \<noteq> 1 \<and>
   modular_inverse 6 9 = Inl (Exception ''modular inverse does not exist'') \<and>
   extended_gcd 7 40 = (1, -17, 3) \<and> fst (extended_gcd 7 40) = gcd 7 40"
proof -
  have c1: "gcd (7::int) 40 = 1" by code_simp
  have c2: "gcd (6::int) 9 \<noteq> 1" by code_simp
  have v1: "modular_inverse 7 40 = Inr 23"
    by (simp add: modular_inverse_def extended_gcd_rec extended_gcd_zero)
  have v2: "extended_gcd 7 40 = (1, -17, 3)"
    by (simp add: extended_gcd_rec extended_gcd_zero)
  from modular_inverse_correct[where a = 7 and m = 40 and b = 40] c1
  have w1: "\<exists>x. modular_inverse 7 40 = Inr x \<and> 0 \<le> x \<and> x < 40 \<and> (7 * x) mod 40 = 1 mod 40"
    and w3: "fst (extended_gcd 7 40) = gcd 7 40"
    by (simp_all split: prod.splits)
  from modular_inverse_correct[where a = 6 and m = 9 and b = 9] c2
  have w2: "modular_inverse 6 9 = Inl (Exception ''modular inverse does not exist'')"
    by simp
  from c1 c2 v1 v2 w1 w2 w3 show ?thesis by simp
qed

text \<open>
  The claim as stated, for all integers \<open>a\<close>, fails on a negative \<open>a\<close>: \<open>-3\<close> and 11 are
  coprime (8 is an inverse of \<open>-3\<close> modulo 11), but \<open>extended_gcd (-3) 11\<close> returns
  \<open>g = -1\<close> and \<open>modular_inverse\<close> fails. Likewise \<open>extended_gcd 0 (-5)\<close> returns
  \<open>g = -5\<close>, which is not \<open>gcd 0 (-5) = 5\<close>.
\<close>

theorem modular_inverse_counterexample:
  "gcd (-3::int) 11 = 1 \<and> (0::int) < 11 \<and>
   modular_inverse (-3) 11 = Inl (Exception ''modular inverse does not exist'') \<and>
   extended_gcd (-3) 11 = (-1, 4, 1) \<and>
   extended_gcd 0 (-5) = (-5, 0, 1) \<and> gcd (0::int) (-5) = 5"
proof -
  have "gcd (-3::int) 11 = 1" by code_simp
  moreover have "modular_inverse (-3) 11 = Inl (Exception ''modular inverse does not exist'')"
    by (simp add: modular_inverse_def extended_gcd_rec extended_gcd_zero)
  moreover have "extended_gcd (-3) 11 = (-1, 4, 1)"
    by (simp add: extended_gcd_rec extended_gcd_zero)
  moreover have "extended_gcd 0 (-5) = (-5, 0, 1)"
    by (simp add: extended_gcd_zero)
  ultimately show ?thesis by simp
qed

section \<open>Properties of \<open>mpi_to_int\<close>\<close>

lemma hex_digit_value_hexdigits:
  "n < 16 \<Longrightarrow> hex_digit_value (hexdigits ! n) = Some (int n)"
proof -
  assume "n < 16"
  then have "n \<in> set [0..<16]" by simp
  then have "n \<in> {0,1,2,3,4,5,6,7,8,9,10,11,12,13,14,15}"
    by (simp add: upt_rec numeral_eq_Suc)
  then show ?thesis
    by (auto simp: hexdigits_def hex_digit_value_def)
qed

lemma int_base16_digits_hexlify:
  "int_base16_digits acc (hexlify bs) = Inr (foldl (\<lambda>acc b. 256 * acc + uint b) acc bs)"
proof (induction bs arbitrary: acc)
  case Nil
  show ?case by simp
next
  case (Cons b bs)
  have lt: "unat b < 256" using unsigned_less[of b] by simp
  then have hi: "unat b div 16 < 16" by simp
  have lo: "unat b mod 16 < 16" by simp
  have "unat b = 16 * (unat b div 16) + unat b mod 16" by simp
  then have "int (unat b) = 16 * int (unat b div 16) + int (unat b mod 16)"
    by (metis of_nat_add of_nat_mult of_nat_numeral)
  then have e: "16 * (16 * acc + int (unat b div 16)) + int (unat b mod 16) = 256 * acc + uint b"
    by simp
  have "int_base16_digits acc (hexlify (b # bs)) =
          int_base16_digits (16 * (16 * acc + int (unat b div 16)) + int (unat b mod 16)) (hexlify bs)"
    by (simp add: hex_digit_value_hexdigits[OF hi] hex_digit_value_hexdigits[OF lo])
  also have "\<dots> = int_base16_digits (256 * acc + uint b) (hexlify bs)"
    by (simp only: e)
  finally show ?case
    using Cons.IH by simp
qed

lemma hexlify_Nil: "hexlify bs = [] \<longleftrightarrow> bs = []"
  by (cases bs) simp_all

text \<open>
  C10. On a buffer of length 2 or less (a header with no magnitude bytes)
  \<open>mpi_to_int\<close> fails, with the \<open>ValueError\<close> of \<open>int\<close> on the empty literal; on every
  longer buffer it returns the bytes after the 2-byte header read as a big-endian
  unsigned integer.
\<close>

theorem mpi_to_int_partial:
  "mpi_to_int s =
     (if length s \<le> 2 then Inl (ValueError ''invalid literal for int() with base 16'')
      else Inr (be_uint (drop 2 s)))"
  by (simp add: mpi_to_int_def int_base16_def hexlify_Nil int_base16_digits_hexlify be_uint_def)

theorem mpi_to_int_partial_witness:
  "mpi_to_int [0, 8, 5] = Inr 5 \<and> mpi_to_int [0, 16, 1, 2] = Inr 258 \<and>
   mpi_to_int [0, 8] = Inl (ValueError ''invalid literal for int() with base 16'') \<and>
   mpi_to_int [] = Inl (ValueError ''invalid literal for int() with base 16'')"
  using mpi_to_int_partial[of "[0, 8, 5]"] mpi_to_int_partial[of "[0, 16, 1, 2]"]
    mpi_to_int_partial[of "[0, 8]"] mpi_to_int_partial[of "[]"]
  by (simp add: be_uint_def)

section \<open>Properties of the chunk planner\<close>

lemma get_chunks_loop_step:
  "p + s < sz \<Longrightarrow>
   get_chunks_loop sz p s =
     (p, s) # get_chunks_loop sz (p + s) (if s < 0x100000 then s + 0x20000 else s)"
  by (subst get_chunks_loop.simps) simp

lemma get_chunks_loop_stop:
  "\<not> p + s < sz \<Longrightarrow> get_chunks_loop sz p s = [(p, sz - p)]"
  by (subst get_chunks_loop.simps) simp

lemma get_chunks_loop_nonempty: "get_chunks_loop sz p s \<noteq> []"
  by (subst get_chunks_loop.simps) simp

lemma get_chunks_loop_hd: "fst (hd (get_chunks_loop sz p s)) = p"
  by (subst get_chunks_loop.simps) simp

lemma get_chunks_loop_covers:
  "0 < s \<Longrightarrow> p \<le> sz \<Longrightarrow> covers p (get_chunks_loop sz p s) sz"
proof (induction sz p s rule: get_chunks_loop.induct)
  case (1 sz p s)
  show ?case
  proof (cases "p + s < sz")
    case True
    with 1 show ?thesis by (simp add: get_chunks_loop_step)
  next
    case False
    with 1 show ?thesis by (simp add: get_chunks_loop_stop)
  qed
qed

lemma get_chunks_loop_sum: "sum_list (map snd (get_chunks_loop sz p s)) = sz - p"
proof (induction sz p s rule: get_chunks_loop.induct)
  case (1 sz p s)
  show ?case
  proof (cases "p + s < sz")
    case True
    with 1 show ?thesis by (simp add: get_chunks_loop_step)
  next
    case False
    then show ?thesis by (simp add: get_chunks_loop_stop)
  qed
qed

text \<open>
  The size schedule: when the loop is entered with \<open>s = 131072 * min j 8\<close>, the pair at
  index \<open>i\<close> that is not the last one has length \<open>131072 * min (j + i) 8\<close> and ends
  strictly before \<open>sz\<close>.
\<close>

lemma get_chunks_loop_schedule:
  "1 \<le> j \<Longrightarrow> s = 131072 * min j 8 \<Longrightarrow> Suc i < length (get_chunks_loop sz p s) \<Longrightarrow>
   snd (get_chunks_loop sz p s ! i) = 131072 * min (j + int i) 8 \<and>
   fst (get_chunks_loop sz p s ! i) + snd (get_chunks_loop sz p s ! i) < sz"
proof (induction sz p s arbitrary: i j rule: get_chunks_loop.induct)
  case (1 sz p s)
  show ?case
  proof (cases "p + s < sz")
    case True
    let ?s' = "if s < 0x100000 then s + 0x20000 else s"
    have unf: "get_chunks_loop sz p s = (p, s) # get_chunks_loop sz (p + s) ?s'"
      using True by (rule get_chunks_loop_step)
    have s': "?s' = 131072 * min (j + 1) 8"
      using "1.prems"(1,2) by (auto simp: min_def)
    show ?thesis
    proof (cases i)
      case 0
      then show ?thesis using True "1.prems"(2) unf by simp
    next
      case (Suc k)
      have len: "Suc k < length (get_chunks_loop sz (p + s) ?s')"
        using "1.prems"(3) unf Suc by simp
      have "1 \<le> j + 1" using "1.prems"(1) by simp
      from "1.IH"[OF True this s' len]
      show ?thesis using unf Suc by (simp add: add.assoc add.commute)
    qed
  next
    case False
    then have "get_chunks_loop sz p s = [(p, sz - p)]"
      by (rule get_chunks_loop_stop)
    with "1.prems"(3) show ?thesis by simp
  qed
qed

lemma get_chunks_loop_last:
  "1 \<le> j \<Longrightarrow> s = 131072 * min j 8 \<Longrightarrow>
   snd (last (get_chunks_loop sz p s))
     \<le> 131072 * min (j + int (length (get_chunks_loop sz p s)) - 1) 8"
proof (induction sz p s arbitrary: j rule: get_chunks_loop.induct)
  case (1 sz p s)
  show ?case
  proof (cases "p + s < sz")
    case True
    let ?s' = "if s < 0x100000 then s + 0x20000 else s"
    have unf: "get_chunks_loop sz p s = (p, s) # get_chunks_loop sz (p + s) ?s'"
      using True by (rule get_chunks_loop_step)
    have s': "?s' = 131072 * min (j + 1) 8"
      using "1.prems"(1,2) by (auto simp: min_def)
    have "1 \<le> j + 1" using "1.prems"(1) by simp
    from "1.IH"[OF True this s']
    show ?thesis using unf by (simp add: get_chunks_loop_nonempty add.assoc add.commute)
  next
    case False
    then have "get_chunks_loop sz p s = [(p, sz - p)]"
      by (rule get_chunks_loop_stop)
    with False "1.prems" show ?thesis by simp
  qed
qed

lemma get_chunks_eval_1500000:
  "get_chunks 1500000 =
     [(0, 131072), (131072, 262144), (393216, 393216), (786432, 524288), (1310720, 189280)]"
  by (simp add: get_chunks_def get_chunks_loop.simps)

lemma get_chunks_eval_300000:
  "get_chunks 300000 = [(0, 131072), (131072, 168928)]"
  by (simp add: get_chunks_def get_chunks_loop.simps)

text \<open>
  C7. For every total size \<open>0 \<le> sz\<close> the plan of \<open>get_chunks\<close> starts at offset 0
  with chunk size 131072 (it is the loop entered with \<open>p = 0\<close>, \<open>s = 131072\<close>); the
  pairs tile the interval from 0 to \<open>sz\<close> in order without gap or overlap; their
  lengths sum to \<open>sz\<close>; every pair but the last was emitted inside the loop, so it
  ends strictly before \<open>sz\<close> and its length follows the schedule 131072, 262144, ...
  growing by 131072 up to the cap 1048576; the last pair is the one remainder
  \<open>(offset, sz - offset)\<close>, emitted when the scheduled size would reach \<open>sz\<close>.
\<close>

theorem get_chunks_plan:
  "0 \<le> sz \<Longrightarrow>
   get_chunks sz = get_chunks_loop sz 0 131072 \<and>
   get_chunks sz \<noteq> [] \<and>
   fst (hd (get_chunks sz)) = 0 \<and>
   covers 0 (get_chunks sz) sz \<and>
   sum_list (map snd (get_chunks sz)) = sz \<and>
   (\<forall>i. Suc i < length (get_chunks sz) \<longrightarrow>
      snd (get_chunks sz ! i) = 131072 * min (int i + 1) 8 \<and>
      fst (get_chunks sz ! i) + snd (get_chunks sz ! i) < sz) \<and>
   snd (last (get_chunks sz)) = sz - fst (last (get_chunks sz)) \<and>
   snd (last (get_chunks sz)) \<le> 131072 * min (int (length (get_chunks sz))) 8"
proof -
  assume nonneg: "0 \<le> sz"
  let ?cs = "get_chunks sz"
  have eq: "?cs = get_chunks_loop sz 0 131072"
    by (simp add: get_chunks_def)
  have ne: "?cs \<noteq> []"
    by (simp add: eq get_chunks_loop_nonempty)
  have h: "fst (hd ?cs) = 0"
    by (simp add: eq get_chunks_loop_hd)
  have cov: "covers 0 ?cs sz"
    unfolding eq using nonneg by (intro get_chunks_loop_covers) simp_all
  have sm: "sum_list (map snd ?cs) = sz"
    by (simp add: eq get_chunks_loop_sum)
  have sched: "\<forall>i. Suc i < length ?cs \<longrightarrow>
      snd (?cs ! i) = 131072 * min (int i + 1) 8 \<and> fst (?cs ! i) + snd (?cs ! i) < sz"
  proof (intro allI impI)
    fix i assume "Suc i < length ?cs"
    then have "Suc i < length (get_chunks_loop sz 0 131072)" by (simp add: eq)
    from get_chunks_loop_schedule[of 1 131072 i sz 0, OF _ _ this]
    show "snd (?cs ! i) = 131072 * min (int i + 1) 8 \<and> fst (?cs ! i) + snd (?cs ! i) < sz"
      by (simp add: eq add.commute)
  qed
  have covers_last: "covers a cs b \<Longrightarrow> cs \<noteq> [] \<Longrightarrow> snd (last cs) = b - fst (last cs)"
    for a b and cs :: "(int \<times> int) list"
    by (induction a cs b rule: covers.induct) auto
  have lst: "snd (last ?cs) = sz - fst (last ?cs)"
    using covers_last[OF cov ne] .
  have bound: "snd (last ?cs) \<le> 131072 * min (int (length ?cs)) 8"
    using get_chunks_loop_last[of 1 131072 sz 0] by (simp add: eq)
  from eq ne h cov sm sched lst bound show ?thesis by blast
qed

theorem get_chunks_plan_witness:
  "(0::int) \<le> 300000 \<and>
   get_chunks 300000 = [(0, 131072), (131072, 168928)] \<and>
   covers 0 (get_chunks 300000) 300000 \<and>
   sum_list (map snd (get_chunks 300000)) = 300000 \<and>
   snd (last (get_chunks 300000)) = 300000 - fst (last (get_chunks 300000))"
proof -
  have nonneg: "(0::int) \<le> 300000" by simp
  from get_chunks_plan[OF nonneg]
  have "covers 0 (get_chunks 300000) 300000"
    and "sum_list (map snd (get_chunks 300000)) = 300000"
    and "snd (last (get_chunks 300000)) = 300000 - fst (last (get_chunks 300000))"
    by blast+
  with nonneg get_chunks_eval_300000 show ?thesis by blast
qed

text \<open>
  C8 (as amended). \<open>get_chunks 1500000\<close> is exactly the five pairs (0, 131072),
  (131072, 262144), (393216, 393216), (786432, 524288) and the remainder
  (1310720, 189280): the chunk size grows by 131072 per chunk. The pairs tile the
  interval from 0 to 1500000 and their lengths sum to 1500000.
\<close>

theorem get_chunks_1500000:
  "get_chunks 1500000 =
     [(0, 131072), (131072, 262144), (393216, 393216), (786432, 524288), (1310720, 189280)] \<and>
   covers 0 (get_chunks 1500000) 1500000 \<and>
   sum_list (map snd (get_chunks 1500000)) = 1500000"
  by (simp add: get_chunks_eval_1500000)

text \<open>
  The boundary sequence the specification lists for 1500000 (steps of 32768 and a sixth
  pair of length 1048576) is not what \<open>get_chunks\<close> yields: already the second pair
  differs, and the plan has five pairs, not six or more.
\<close>

theorem get_chunks_1500000_counterexample:
  "take 6 (get_chunks 1500000) \<noteq>
     [(0, 131072), (131072, 163840), (294912, 196608), (491520, 229376), (720896, 262144),
      (983040, 1048576)] \<and>
   get_chunks 1500000 ! 1 \<noteq> (131072, 163840) \<and>
   length (get_chunks 1500000) = 5"
  by (simp add: get_chunks_eval_1500000)

end
